theory Spec2Isabelle
  imports Main "HOL-Library.AList" "HOL-Library.Word"
begin

section \<open>JavaScript values and coercions\<close>

text \<open>
  The primitive JavaScript values that reach \<^verbatim>\<open>createYStorage\<close> and its API as keys,
  values and identifiers. A number is a sign and a magnitude below \<open>2 ^ 53\<close>: these are
  the integers JavaScript holds exactly (with the negative zero), and \<^verbatim>\<open>String(n)\<close> is
  their decimal numeral. Other numbers, objects and symbols are left out.
\<close>

datatype jsval = Undefined | Null | Bool bool | Num bool "53 word" | Str string

text \<open>JavaScript truthiness, as tested by \<^verbatim>\<open>!appId\<close>, \<^verbatim>\<open>if (relayUrls)\<close>.\<close>

fun truthy :: "jsval \<Rightarrow> bool" where
  "truthy Undefined = False"
| "truthy Null = False"
| "truthy (Bool b) = b"
| "truthy (Num neg n) = (n \<noteq> 0)"
| "truthy (Str s) = (s \<noteq> [])"

fun dec :: "nat \<Rightarrow> string" where
  "dec n = (if n < 10 then [''0123456789'' ! n] else dec (n div 10) @ [''0123456789'' ! (n mod 10)])"

declare dec.simps [simp del]

text \<open>\<^verbatim>\<open>String(x)\<close> on the primitive values.\<close>

fun String :: "jsval \<Rightarrow> string" where
  "String Undefined = ''undefined''"
| "String Null = ''null''"
| "String (Bool b) = (if b then ''true'' else ''false'')"
| "String (Num neg n) = (if neg \<and> n \<noteq> 0 then CHR ''-'' # dec (unat n) else dec (unat n))"
| "String (Str s) = s"

section \<open>The collaborators this module consumes\<close>

text \<open>A JavaScript \<^verbatim>\<open>Error\<close> with its message.\<close>

datatype error = Error string

text \<open>
  Modelled from the spec: the replicated data engine (the \<^verbatim>\<open>Y\<close> import of the source) is
  not part of this repository. Following the capability list of the specification's
  external interfaces (encode a summary, compute a diff against a remote summary, apply a
  diff, a mutation hook, and an enumerable map view with set, delete and clear), it is taken
  as a parameter: a record of functions over a document type \<open>'d\<close> and a binary content type
  \<open>'w\<close>. The module never inspects binary content.

  One engine call is one transaction, taken to return normally. Its outcome says which of the two hooks the source
  registers are invoked by the engine: \<open>observed\<close> for the callback given to
  \<^verbatim>\<open>map.observe\<close>, and \<open>update\<close> for the handler given to \<^verbatim>\<open>doc.on("update", ...)\<close>,
  with the binary update it receives.
\<close>

record ('d, 'w) mutation =
  m_doc :: 'd
  observed :: bool
  update :: "'w option"

record ('d, 'w) engine =
  newDoc :: "nat \<Rightarrow> 'd"
  entries :: "'d \<Rightarrow> (string \<times> jsval) list"
  mapSet :: "'d \<Rightarrow> string \<Rightarrow> jsval \<Rightarrow> ('d, 'w) mutation"
  mapDelete :: "'d \<Rightarrow> string \<Rightarrow> ('d, 'w) mutation"
  mapClear :: "'d \<Rightarrow> ('d, 'w) mutation"
  encodeStateVector :: "'d \<Rightarrow> 'w"
  encodeStateAsUpdate :: "'d \<Rightarrow> 'w \<Rightarrow> 'w"
  applyUpdate :: "'d \<Rightarrow> 'w \<Rightarrow> ('d, 'w) mutation"
  docDestroy :: "'d \<Rightarrow> 'd \<times> error option"

text \<open>
  \<open>newDoc c\<close> is \<^verbatim>\<open>new Y.Doc()\<close> with the replica identity \<open>c\<close> the engine draws for it;
  \<open>entries d\<close> is the map of the document in the order \<^verbatim>\<open>forEach\<close> and \<^verbatim>\<open>keys\<close>
  enumerate it, from which \<^verbatim>\<open>get\<close> and \<^verbatim>\<open>size\<close> are read; \<open>docDestroy\<close> returns the
  document after \<^verbatim>\<open>doc.destroy()\<close> and what the call threw, if it threw.
\<close>

definition mapGet :: "('d, 'w) engine \<Rightarrow> 'd \<Rightarrow> string \<Rightarrow> jsval option" where
  "mapGet E d k = map_of (entries E d) k"

text \<open>
  What the transport hands to a receive callback. \<^verbatim>\<open>toU8\<close> tells apart a
  \<^verbatim>\<open>Uint8Array\<close>, an \<^verbatim>\<open>ArrayBuffer\<close>, any other object whose \<^verbatim>\<open>buffer\<close> property is an
  \<^verbatim>\<open>ArrayBuffer\<close> (the argument is the content of that whole buffer), and everything else.
\<close>

datatype 'w payload = Uint8Array 'w | ArrayBuffer 'w | BufferView 'w | NotBinary jsval

type_synonym peerId = string

section \<open>The module\<close>

text \<open>\<^verbatim>\<open>function toU8(x)\<close>\<close>

fun toU8 :: "'w payload \<Rightarrow> error + 'w" where
  "toU8 (Uint8Array w) = Inr w"
| "toU8 (ArrayBuffer w) = Inr w"
| "toU8 (BufferView w) = Inr w"
| "toU8 (NotBinary x) = Inl (Error ''Unexpected binary type'')"

text \<open>
  A JavaScript \<^verbatim>\<open>Map\<close> from strings to strings: an association list in insertion order
  with unique keys; \<^verbatim>\<open>m.set(k, v)\<close> is \<^const>\<open>AList.update\<close> (an existing key keeps its
  place, a new one goes last), \<^verbatim>\<open>m.has\<close> and \<^verbatim>\<open>m.get\<close> read \<^const>\<open>map_of\<close>.
\<close>

type_synonym jsmap = "(string \<times> string) list"

text \<open>\<^verbatim>\<open>function snapshot(map)\<close>\<close>

definition snapshot :: "(string \<times> jsval) list \<Rightarrow> jsmap" where
  "snapshot es = fold (\<lambda>(k, v) m. AList.update k (String v) m) es []"

text \<open>
  The \<^verbatim>\<open>detail\<close> of the \<^verbatim>\<open>CustomEvent("storage", ...)\<close> built by \<^verbatim>\<open>evt\<close>. Its two
  remaining fields, \<^verbatim>\<open>storageArea\<close> (the API object itself) and \<^verbatim>\<open>url\<close> (the page
  location), are the same for every event of an instance and are left out.
\<close>

record change =
  key :: string
  oldValue :: jsval
  newValue :: jsval

definition evt :: "string \<Rightarrow> jsval \<Rightarrow> jsval \<Rightarrow> change" where
  "evt k ov nv = \<lparr>key = k, oldValue = ov, newValue = nv\<rparr>"

text \<open>Everything a handler does to the outside, in the order it does it.\<close>

datatype 'w effect =
    JoinRoom jsval "jsval option" "jsval option" jsval
  | SendSync1 'w peerId
  | SendSync2 'w peerId
  | SendUpd 'w
  | Dispatch change
  | LeaveRoom
  | Uncaught error

record config =
  appId :: jsval
  roomId :: jsval
  relayUrls :: jsval
  password :: jsval
  name :: string
  maxPeers :: "int option"

text \<open>
  The variables the closures of \<^verbatim>\<open>createYStorage\<close> share: the document, the retained
  snapshot \<^verbatim>\<open>snap\<close>, the listeners of \<^verbatim>\<open>bus\<close> (event type and listener), and the
  \<^verbatim>\<open>maxPeers\<close> option. The option \<^verbatim>\<open>name\<close> only says which map of the document
  \<^verbatim>\<open>doc.getMap(name)\<close> is; the map operations of the engine parameter are those of that
  map.
\<close>

record 'd ystorage =
  doc :: 'd
  snap :: jsmap
  bus :: "(string \<times> nat) list"
  st_maxPeers :: "int option"

text \<open>
  \<^verbatim>\<open>createYStorage\<close>. \<open>c\<close> is the replica identity of the new document. The handlers the
  function registers are the definitions below.
\<close>

definition createYStorage ::
  "('d, 'w) engine \<Rightarrow> nat \<Rightarrow> config \<Rightarrow> error + ('d ystorage \<times> 'w effect list)" where
  "createYStorage E c cfg =
     (if \<not> truthy (appId cfg) then Inl (Error ''createYStorage: appId is required'')
      else if \<not> truthy (roomId cfg) then Inl (Error ''createYStorage: roomId is required'')
      else
        let d = newDoc E c in
        Inr (\<lparr>doc = d, snap = snapshot (entries E d), bus = [], st_maxPeers = maxPeers cfg\<rparr>,
             [JoinRoom (appId cfg)
                (if truthy (relayUrls cfg) then Some (relayUrls cfg) else None)
                (if truthy (password cfg) then Some (password cfg) else None)
                (roomId cfg)]))"

text \<open>
  What \<^verbatim>\<open>room.getPeers()\<close> answers, of which the source reads the property
  \<^verbatim>\<open>length\<close>: an array of peer identifiers, whose \<^verbatim>\<open>length\<close> is the number of peers,
  or an object keyed by peer identifier (given by its keys), whose \<^verbatim>\<open>length\<close> is
  \<^verbatim>\<open>undefined\<close>. The room of the transport this module imports answers the object.
\<close>

datatype peers = PeerArray "peerId list" | PeerObject "peerId list"

fun peers_length :: "peers \<Rightarrow> nat option" where
  "peers_length (PeerArray ps) = Some (length ps)"
| "peers_length (PeerObject ks) = None"

text \<open>
  The gate of \<^verbatim>\<open>room.onPeerJoin\<close>:
  \<^verbatim>\<open>maxPeers && room.getPeers && room.getPeers().length > maxPeers\<close>. \<open>ps\<close> is the
  answer of \<^verbatim>\<open>room.getPeers()\<close> at that moment, \<open>None\<close> when the room has no such
  function. \<^verbatim>\<open>undefined > maxPeers\<close> is false.
\<close>

definition gated :: "int option \<Rightarrow> peers option \<Rightarrow> bool" where
  "gated mp ps =
     (case mp of None \<Rightarrow> False
      | Some m \<Rightarrow> m \<noteq> 0 \<and>
          (case ps of None \<Rightarrow> False
           | Some answer \<Rightarrow> (case peers_length answer of None \<Rightarrow> False
                            | Some n \<Rightarrow> int n > m)))"

definition onPeerJoin ::
  "('d, 'w) engine \<Rightarrow> 'd ystorage \<Rightarrow> peers option \<Rightarrow> peerId \<Rightarrow> 'w effect list" where
  "onPeerJoin E st ps p =
     (if gated (st_maxPeers st) ps then []
      else let sv = encodeStateVector E (doc st) in [SendSync1 sv p])"

text \<open>The callback of \<^verbatim>\<open>map.observe\<close>, in its two loops.\<close>

definition changed :: "jsmap \<Rightarrow> jsmap \<Rightarrow> change list" where
  "changed old next =
     concat (map (\<lambda>(k, nv).
       let ov = (case map_of old k of Some v \<Rightarrow> Str v | None \<Rightarrow> Null)
       in if ov \<noteq> Str nv then [evt k ov (Str nv)] else []) next)"

definition removed :: "jsmap \<Rightarrow> jsmap \<Rightarrow> change list" where
  "removed old next =
     concat (map (\<lambda>(k, ov). if map_of next k = None then [evt k (Str ov) Null] else []) old)"

definition observeCallback ::
  "('d, 'w) engine \<Rightarrow> 'd ystorage \<Rightarrow> 'd ystorage \<times> 'w effect list" where
  "observeCallback E st =
     (let next = snapshot (entries E (doc st))
      in (st\<lparr>snap := next\<rparr>, map Dispatch (changed (snap st) next @ removed (snap st) next)))"

text \<open>
  The end of an engine transaction on the document of \<open>st\<close>: the engine calls the map
  observer, then the \<^verbatim>\<open>doc.on("update", ...)\<close> handler, which broadcasts the update.
\<close>

definition notify ::
  "('d, 'w) engine \<Rightarrow> 'd ystorage \<Rightarrow> ('d, 'w) mutation \<Rightarrow> 'd ystorage \<times> 'w effect list" where
  "notify E st r =
     (let st1 = st\<lparr>doc := m_doc r\<rparr>;
          (st2, fx) = (if observed r then observeCallback E st1 else (st1, []))
      in (st2, fx @ (case update r of None \<Rightarrow> [] | Some u \<Rightarrow> [SendUpd u])))"

definition onSync1 ::
  "('d, 'w) engine \<Rightarrow> 'd ystorage \<Rightarrow> 'w payload \<Rightarrow> peerId \<Rightarrow> error + 'w effect list" where
  "onSync1 E st svBuf p =
     (case toU8 svBuf of Inl e \<Rightarrow> Inl e
      | Inr sv \<Rightarrow> let diff = encodeStateAsUpdate E (doc st) sv in Inr [SendSync2 diff p])"

definition onSync2 ::
  "('d, 'w) engine \<Rightarrow> 'd ystorage \<Rightarrow> 'w payload \<Rightarrow> error + ('d ystorage \<times> 'w effect list)" where
  "onSync2 E st updateBuf =
     (case toU8 updateBuf of Inl e \<Rightarrow> Inl e
      | Inr u \<Rightarrow> Inr (notify E st (applyUpdate E (doc st) u)))"

definition onUpd ::
  "('d, 'w) engine \<Rightarrow> 'd ystorage \<Rightarrow> 'w payload \<Rightarrow> error + ('d ystorage \<times> 'w effect list)" where
  "onUpd E st updateBuf =
     (case toU8 updateBuf of Inl e \<Rightarrow> Inl e
      | Inr u \<Rightarrow> Inr (notify E st (applyUpdate E (doc st) u)))"

subsection \<open>The API object\<close>

definition length_api :: "('d, 'w) engine \<Rightarrow> 'd ystorage \<Rightarrow> nat" where
  "length_api E st = length (entries E (doc st))"

definition key_api :: "('d, 'w) engine \<Rightarrow> 'd ystorage \<Rightarrow> int \<Rightarrow> string option" where
  "key_api E st n =
     (let ks = map fst (entries E (doc st))
      in if 0 \<le> n \<and> nat n < length ks then Some (ks ! nat n) else None)"

text \<open>\<open>None\<close> is the \<^verbatim>\<open>null\<close> that \<^verbatim>\<open>getItem\<close> returns; every other result is a string.\<close>

definition getItem :: "('d, 'w) engine \<Rightarrow> 'd ystorage \<Rightarrow> jsval \<Rightarrow> string option" where
  "getItem E st k =
     (case mapGet E (doc st) (String k) of None \<Rightarrow> None
      | Some v \<Rightarrow> if v = Undefined then None else Some (String v))"

definition setItem ::
  "('d, 'w) engine \<Rightarrow> 'd ystorage \<Rightarrow> jsval \<Rightarrow> jsval \<Rightarrow> 'd ystorage \<times> 'w effect list" where
  "setItem E st k v = notify E st (mapSet E (doc st) (String k) (Str (String v)))"

definition removeItem ::
  "('d, 'w) engine \<Rightarrow> 'd ystorage \<Rightarrow> jsval \<Rightarrow> 'd ystorage \<times> 'w effect list" where
  "removeItem E st k = notify E st (mapDelete E (doc st) (String k))"

definition clear :: "('d, 'w) engine \<Rightarrow> 'd ystorage \<Rightarrow> 'd ystorage \<times> 'w effect list" where
  "clear E st = notify E st (mapClear E (doc st))"

text \<open>
  \<^verbatim>\<open>addEventListener\<close> and \<^verbatim>\<open>removeEventListener\<close> pass through to the
  \<^verbatim>\<open>EventTarget\<close>, which keeps one registration per type and listener (the options
  argument is not modelled).
\<close>

definition addEventListener :: "'d ystorage \<Rightarrow> string \<Rightarrow> nat \<Rightarrow> 'd ystorage" where
  "addEventListener st ty fn =
     (if (ty, fn) \<in> set (bus st) then st else st\<lparr>bus := bus st @ [(ty, fn)]\<rparr>)"

definition removeEventListener :: "'d ystorage \<Rightarrow> string \<Rightarrow> nat \<Rightarrow> 'd ystorage" where
  "removeEventListener st ty fn = st\<lparr>bus := removeAll (ty, fn) (bus st)\<rparr>"

text \<open>
  \<^verbatim>\<open>destroy\<close>: both calls sit in a \<^verbatim>\<open>try\<close> with an empty \<^verbatim>\<open>catch\<close>. \<open>left\<close> is
  what \<^verbatim>\<open>room.leave()\<close> throws, if it throws; that and what \<^verbatim>\<open>doc.destroy()\<close> throws
  are caught and dropped, and the function returns normally.
\<close>

definition destroy ::
  "('d, 'w) engine \<Rightarrow> 'd ystorage \<Rightarrow> error option \<Rightarrow> 'd ystorage \<times> 'w effect list" where
  "destroy E st left =
     (let caught1 = left;
          (d, caught2) = docDestroy E (doc st)
      in (st\<lparr>doc := d\<rparr>, [LeaveRoom]))"

text \<open>The listeners a dispatched event reaches: those registered for its type, in order.\<close>

definition delivered :: "(string \<times> nat) list \<Rightarrow> 'w effect list \<Rightarrow> (nat \<times> change) list" where
  "delivered ls fx =
     concat (map (\<lambda>e. case e of
        Dispatch ev \<Rightarrow> map (\<lambda>(ty, fn). (fn, ev)) (filter (\<lambda>(ty, fn). ty = ''storage'') ls)
      | _ \<Rightarrow> []) fx)"

subsection \<open>Events reaching one instance\<close>

text \<open>
  The module is driven by the transport's callbacks and by calls of the API. Each is an input;
  \<open>step\<close> runs the handler the source registers for it. An exception that leaves a handler
  is the \<open>Inl\<close> result.
\<close>

datatype 'w input =
    PeerJoin peerId "peers option"
  | RecvSync1 "'w payload" peerId
  | RecvSync2 "'w payload" peerId
  | RecvUpd "'w payload" peerId
  | SetItem jsval jsval
  | RemoveItem jsval
  | Clear
  | AddEventListener string nat
  | RemoveEventListener string nat
  | Destroy "error option"

fun step ::
  "('d, 'w) engine \<Rightarrow> 'd ystorage \<Rightarrow> 'w input \<Rightarrow> error + ('d ystorage \<times> 'w effect list)" where
  "step E st (PeerJoin p ps) = Inr (st, onPeerJoin E st ps p)"
| "step E st (RecvSync1 b p) =
     (case onSync1 E st b p of Inl e \<Rightarrow> Inl e | Inr fx \<Rightarrow> Inr (st, fx))"
| "step E st (RecvSync2 b p) = onSync2 E st b"
| "step E st (RecvUpd b p) = onUpd E st b"
| "step E st (SetItem k v) = Inr (setItem E st k v)"
| "step E st (RemoveItem k) = Inr (removeItem E st k)"
| "step E st Clear = Inr (clear E st)"
| "step E st (AddEventListener ty fn) = Inr (addEventListener st ty fn, [])"
| "step E st (RemoveEventListener ty fn) = Inr (removeEventListener st ty fn, [])"
| "step E st (Destroy left) = Inr (destroy E st left)"

text \<open>
  A run of inputs. An exception that leaves a handler goes to whoever invoked it (the
  transport, for the three receive callbacks); the variables of the instance stay as the
  handler left them, which is unchanged, since \<^verbatim>\<open>toU8\<close> is the first thing the three
  handlers call.
\<close>

definition exec ::
  "('d, 'w) engine \<Rightarrow> 'd ystorage \<Rightarrow> 'w input \<Rightarrow> 'd ystorage \<times> 'w effect list" where
  "exec E st i = (case step E st i of Inl e \<Rightarrow> (st, [Uncaught e]) | Inr r \<Rightarrow> r)"

fun trace ::
  "('d, 'w) engine \<Rightarrow> 'd ystorage \<Rightarrow> 'w input list \<Rightarrow> ('w input \<times> 'w effect list) list" where
  "trace E st [] = []"
| "trace E st (i # is) = (i, snd (exec E st i)) # trace E (fst (exec E st i)) is"

fun final :: "('d, 'w) engine \<Rightarrow> 'd ystorage \<Rightarrow> 'w input list \<Rightarrow> 'd ystorage" where
  "final E st [] = st"
| "final E st (i # is) = final E (fst (exec E st i)) is"

subsection \<open>Two instances and the transport between them\<close>

text \<open>
  The transport delivers a sent binary in one of the containers \<^verbatim>\<open>toU8\<close> accepts.
\<close>

datatype container = AsUint8Array | AsArrayBuffer | AsBufferView

fun deliver :: "container \<Rightarrow> 'w \<Rightarrow> 'w payload" where
  "deliver AsUint8Array w = Uint8Array w"
| "deliver AsArrayBuffer w = ArrayBuffer w"
| "deliver AsBufferView w = BufferView w"

text \<open>
  What the peer \<open>me\<close> receives of the effects \<open>fx\<close> of the peer \<open>from\<close>: the messages
  addressed to it and the broadcasts.
\<close>

definition inbox :: "container \<Rightarrow> peerId \<Rightarrow> peerId \<Rightarrow> 'w effect list \<Rightarrow> 'w input list" where
  "inbox c from me fx =
     concat (map (\<lambda>e. case e of
        SendSync1 w to \<Rightarrow> if to = me then [RecvSync1 (deliver c w) from] else []
      | SendSync2 w to \<Rightarrow> if to = me then [RecvSync2 (deliver c w) from] else []
      | SendUpd w \<Rightarrow> [RecvUpd (deliver c w) from]
      | _ \<Rightarrow> []) fx)"

text \<open>
  The round trip that follows when the instance \<open>a\<close> (peer \<open>ida\<close>) observes the join of
  the peer \<open>idb\<close> (instance \<open>b\<close>): the handler of \<open>a\<close> runs, \<open>b\<close> receives what \<open>a\<close>
  sent to it, and \<open>a\<close> receives what \<open>b\<close> sent back. The result is both instances
  afterwards.
\<close>

definition roundtrip ::
  "('d, 'w) engine \<Rightarrow> container \<Rightarrow> 'd ystorage \<Rightarrow> peerId \<Rightarrow> 'd ystorage \<Rightarrow> peerId \<Rightarrow>
     peers option \<Rightarrow> 'd ystorage \<times> 'd ystorage" where
  "roundtrip E c a ida b idb ps =
     (let request = inbox c ida idb (snd (exec E a (PeerJoin idb ps)));
          response = inbox c idb ida (concat (map snd (trace E b request)))
      in (final E a response, final E b request))"

section \<open>A reference engine\<close>

text \<open>
  Modelled from the spec: an engine with the capabilities above, used wherever a concrete
  engine is needed. Every key carries the stamp (counter, replica) of its last write and
  the written value, \<open>None\<close> for a deleted key; the greater stamp wins. The summary is the
  stamps a replica has, the diff against a summary is what is newer than it, and applying a
  diff keeps the newer of both sides, so that applying is idempotent and insensitive to
  order. As with \<^verbatim>\<open>Y.Doc.destroy()\<close>, which clears the handlers registered on the
  document and leaves its shared types alone, a destroyed document has lost its
  \<^verbatim>\<open>update\<close> handlers and keeps its map and the observers of the map.
\<close>

type_synonym stamp = "nat \<times> nat"

type_synonym lww_items = "(string \<times> stamp \<times> jsval option) list"

record lww_doc =
  client :: nat
  items :: lww_items
  destroyed :: bool

definition newer :: "stamp \<Rightarrow> stamp \<Rightarrow> bool" where
  "newer s t = (fst t < fst s \<or> fst t = fst s \<and> snd t < snd s)"

definition top :: "lww_items \<Rightarrow> nat" where
  "top xs = fold (\<lambda>(k, s, v). max (fst s)) xs 0"

fun visible :: "lww_items \<Rightarrow> (string \<times> jsval) list" where
  "visible [] = []"
| "visible ((k, s, v) # xs) = (case v of None \<Rightarrow> visible xs | Some x \<Rightarrow> (k, x) # visible xs)"

definition lww_entries :: "lww_doc \<Rightarrow> (string \<times> jsval) list" where
  "lww_entries d = visible (AList.clearjunk (items d))"

definition put_all :: "lww_items \<Rightarrow> lww_items \<Rightarrow> lww_items" where
  "put_all u xs = fold (\<lambda>(k, x). AList.update k x) u xs"

definition emit :: "lww_doc \<Rightarrow> lww_items \<Rightarrow> lww_items option" where
  "emit d u = (if destroyed d \<or> u = [] then None else Some u)"

definition lww_write :: "lww_doc \<Rightarrow> lww_items \<Rightarrow> (lww_doc, lww_items) mutation" where
  "lww_write d u =
     \<lparr>m_doc = d\<lparr>items := put_all u (items d)\<rparr>, observed = (u \<noteq> []), update = emit d u\<rparr>"

definition lww_set :: "lww_doc \<Rightarrow> string \<Rightarrow> jsval \<Rightarrow> (lww_doc, lww_items) mutation" where
  "lww_set d k v = lww_write d [(k, (Suc (top (items d)), client d), Some v)]"

definition lww_delete :: "lww_doc \<Rightarrow> string \<Rightarrow> (lww_doc, lww_items) mutation" where
  "lww_delete d k =
     lww_write d (case map_of (lww_entries d) k of None \<Rightarrow> []
                  | Some x \<Rightarrow> [(k, (Suc (top (items d)), client d), None)])"

definition lww_clear :: "lww_doc \<Rightarrow> (lww_doc, lww_items) mutation" where
  "lww_clear d =
     lww_write d (map (\<lambda>k. (k, (Suc (top (items d)), client d), None)) (map fst (lww_entries d)))"

definition lww_sv :: "lww_doc \<Rightarrow> lww_items" where
  "lww_sv d = map (\<lambda>(k, s, v). (k, s, None)) (AList.clearjunk (items d))"

definition missing :: "lww_items \<Rightarrow> lww_items \<Rightarrow> lww_items" where
  "missing have xs =
     filter (\<lambda>(k, s, v). case map_of have k of None \<Rightarrow> True | Some (t, w) \<Rightarrow> newer s t)
       (AList.clearjunk xs)"

definition lww_diff :: "lww_doc \<Rightarrow> lww_items \<Rightarrow> lww_items" where
  "lww_diff d sv = missing sv (items d)"

definition lww_apply :: "lww_doc \<Rightarrow> lww_items \<Rightarrow> (lww_doc, lww_items) mutation" where
  "lww_apply d u =
     (let new = missing (items d) u; d' = d\<lparr>items := put_all new (items d)\<rparr>
      in \<lparr>m_doc = d', observed = (lww_entries d' \<noteq> lww_entries d), update = emit d new\<rparr>)"

definition lww :: "(lww_doc, lww_items) engine" where
  "lww = \<lparr>newDoc = (\<lambda>c. \<lparr>client = c, items = [], destroyed = False\<rparr>),
          entries = lww_entries,
          mapSet = lww_set,
          mapDelete = lww_delete,
          mapClear = lww_clear,
          encodeStateVector = lww_sv,
          encodeStateAsUpdate = lww_diff,
          applyUpdate = lww_apply,
          docDestroy = (\<lambda>d. (d\<lparr>destroyed := True\<rparr>, None))\<rparr>"

section \<open>Notions the properties are stated with\<close>

text \<open>The change events among the effects of a handler, in dispatch order.\<close>

definition dispatched :: "'w effect list \<Rightarrow> change list" where
  "dispatched fx = concat (map (\<lambda>e. case e of Dispatch ev \<Rightarrow> [ev] | _ \<Rightarrow> []) fx)"

fun nullOrString :: "jsval \<Rightarrow> bool" where
  "nullOrString Null = True"
| "nullOrString (Str s) = True"
| "nullOrString v = False"

text \<open>
  Modelled from the spec: what the module relies on from the engine's map view. A new
  document has an empty map; keys are unique; set, delete and clear act on the view as on a
  map; and a transaction that does not call the map observer has left the view as it was.
\<close>

definition quiet :: "('d, 'w) engine \<Rightarrow> 'd \<Rightarrow> ('d, 'w) mutation \<Rightarrow> bool" where
  "quiet E d r = (\<not> observed r \<longrightarrow> map_of (entries E (m_doc r)) = map_of (entries E d))"

definition map_engine :: "('d, 'w) engine \<Rightarrow> bool" where
  "map_engine E \<longleftrightarrow>
     (\<forall>c. entries E (newDoc E c) = []) \<and>
     (\<forall>d. distinct (map fst (entries E d))) \<and>
     (\<forall>d k v. map_of (entries E (m_doc (mapSet E d k v))) = (map_of (entries E d))(k \<mapsto> v)) \<and>
     (\<forall>d k. map_of (entries E (m_doc (mapDelete E d k))) = (map_of (entries E d))(k := None)) \<and>
     (\<forall>d. entries E (m_doc (mapClear E d)) = []) \<and>
     (\<forall>d k v. quiet E d (mapSet E d k v)) \<and>
     (\<forall>d k. quiet E d (mapDelete E d k)) \<and>
     (\<forall>d. quiet E d (mapClear E d))"

text \<open>
  Modelled from the spec: the diff computed against the summary of a new replica, applied to
  that replica, gives it the map of the replica that computed the diff.
\<close>

definition sync_engine :: "('d, 'w) engine \<Rightarrow> bool" where
  "sync_engine E \<longleftrightarrow>
     (\<forall>a c. map_of (entries E (m_doc (applyUpdate E (newDoc E c)
                (encodeStateAsUpdate E a (encodeStateVector E (newDoc E c)))))) =
            map_of (entries E a))"

text \<open>The retained snapshot agrees with the map of the document.\<close>

definition synced :: "('d, 'w) engine \<Rightarrow> 'd ystorage \<Rightarrow> bool" where
  "synced E st \<longleftrightarrow>
     distinct (map fst (snap st)) \<and>
     (\<forall>k. map_of (snap st) k = map_option String (map_of (entries E (doc st)) k))"

text \<open>
  The storage the specification describes: a map from string keys to string values, on
  which \<^verbatim>\<open>set\<close> coerces key and value to strings, \<^verbatim>\<open>delete\<close> removes the key and
  \<^verbatim>\<open>clear\<close> removes all keys. The other calls of the API leave it alone.
\<close>

fun api_call :: "'w input \<Rightarrow> bool" where
  "api_call (SetItem k v) = True"
| "api_call (RemoveItem k) = True"
| "api_call Clear = True"
| "api_call (AddEventListener ty fn) = True"
| "api_call (RemoveEventListener ty fn) = True"
| "api_call i = False"

fun storage_model :: "'w input \<Rightarrow> (string \<rightharpoonup> string) \<Rightarrow> (string \<rightharpoonup> string)" where
  "storage_model (SetItem k v) m = m(String k \<mapsto> String v)"
| "storage_model (RemoveItem k) m = m(String k := None)"
| "storage_model Clear m = Map.empty"
| "storage_model i m = m"

text \<open>A configuration with both identifiers and no options, and one with a peer ceiling.\<close>

definition plain :: config where
  "plain = \<lparr>appId = Str ''app'', roomId = Str ''room'', relayUrls = Undefined,
            password = Undefined, name = ''ystorage'', maxPeers = None\<rparr>"

definition capped :: "int \<Rightarrow> config" where
  "capped m = plain\<lparr>maxPeers := Some m\<rparr>"

text \<open>The instance \<^verbatim>\<open>createYStorage\<close> returns for replica \<open>c\<close> of the reference engine.\<close>

definition fresh :: "nat \<Rightarrow> int option \<Rightarrow> lww_doc ystorage" where
  "fresh c mp = \<lparr>doc = \<lparr>client = c, items = [], destroyed = False\<rparr>, snap = [], bus = [],
                 st_maxPeers = mp\<rparr>"

section \<open>The snapshot differ\<close>

lemma concat_map_single:
  "distinct (map fst xs) \<Longrightarrow> (\<forall>x\<in>set xs. fst x \<noteq> k \<longrightarrow> f x = []) \<Longrightarrow>
   concat (map f xs) = (case map_of xs k of None \<Rightarrow> [] | Some v \<Rightarrow> f (k, v))"
proof (induction xs)
  case Nil
  then show ?case by simp
next
  case (Cons x xs)
  obtain a b where x: "x = (a, b)" by (cases x)
  show ?case
  proof (cases "a = k")
    case True
    with Cons.prems x have "k \<notin> fst ` set xs" by auto
    then have "\<forall>y\<in>set xs. f y = []"
      using Cons.prems(2) by (metis image_eqI list.set_intros(2))
    then have "concat (map f xs) = []" by simp
    with True x show ?thesis by simp
  next
    case False
    with Cons x show ?thesis by simp
  qed
qed

lemma distinct_snapshot_aux:
  "distinct (map fst m) \<Longrightarrow>
   distinct (map fst (fold (\<lambda>(k, v) m. AList.update k (String v) m) es m))"
  by (induction es arbitrary: m) (auto simp: distinct_update)

lemma distinct_snapshot: "distinct (map fst (snapshot es))"
  by (simp add: snapshot_def distinct_snapshot_aux)

lemma map_of_snapshot_aux:
  "distinct (map fst es) \<Longrightarrow>
   map_of (fold (\<lambda>(k, v) m. AList.update k (String v) m) es m) k =
     (case map_of es k of None \<Rightarrow> map_of m k | Some v \<Rightarrow> Some (String v))"
proof (induction es arbitrary: m)
  case Nil
  then show ?case by simp
next
  case (Cons e es)
  obtain a b where e: "e = (a, b)" by (cases e)
  from Cons.prems e have d: "distinct (map fst es)" and n: "a \<notin> fst ` set es" by auto
  from n have "map_of es a = None" by (simp add: map_of_eq_None_iff)
  with Cons.IH [OF d] e show ?case
    by (auto simp: update_conv' split: option.splits)
qed

lemma map_of_snapshot:
  "distinct (map fst es) \<Longrightarrow> map_of (snapshot es) k = map_option String (map_of es k)"
  by (simp add: snapshot_def map_of_snapshot_aux split: option.splits)

lemma map_of_snapshot_fun:
  "distinct (map fst es) \<Longrightarrow> map_of (snapshot es) = (\<lambda>k. map_option String (map_of es k))"
  by (rule ext) (simp add: map_of_snapshot)

lemma changed_upd:
  assumes d: "distinct (map fst next)" and m: "map_of next = (map_of old)(k \<mapsto> v)"
  shows "changed old next =
    (if map_of old k = Some v then []
     else [evt k (case map_of old k of Some x \<Rightarrow> Str x | None \<Rightarrow> Null) (Str v)])"
proof -
  let ?f = "\<lambda>(k, nv). let ov = (case map_of old k of Some v \<Rightarrow> Str v | None \<Rightarrow> Null)
       in if ov \<noteq> Str nv then [evt k ov (Str nv)] else []"
  have "\<forall>x\<in>set next. fst x \<noteq> k \<longrightarrow> ?f x = []"
  proof (intro ballI impI)
    fix x assume x: "x \<in> set next" and ne: "fst x \<noteq> k"
    obtain a b where ab: "x = (a, b)" by (cases x)
    with x d have "map_of next a = Some b" by simp
    with m ne ab have "map_of old a = Some b" by (simp split: if_splits)
    with ab show "?f x = []" by simp
  qed
  from concat_map_single [OF d this] have
    "changed old next = (case map_of next k of None \<Rightarrow> [] | Some v \<Rightarrow> ?f (k, v))"
    by (simp add: changed_def)
  also have "map_of next k = Some v" using m by simp
  finally show ?thesis by (auto split: option.splits)
qed

lemma removed_upd:
  assumes m: "map_of next = (map_of old)(k \<mapsto> v)"
  shows "removed old next = []"
proof -
  have "\<And>a b. (a, b) \<in> set old \<Longrightarrow> map_of next a \<noteq> None"
  proof -
    fix a b assume "(a, b) \<in> set old"
    then have "map_of old a \<noteq> None" by (metis map_of_eq_None_iff fst_conv image_eqI)
    with m show "map_of next a \<noteq> None" by simp
  qed
  then show ?thesis by (auto simp: removed_def)
qed

lemma changed_del:
  assumes d: "distinct (map fst next)" and m: "map_of next = (map_of old)(k := None)"
  shows "changed old next = []"
proof -
  have "\<And>a b. (a, b) \<in> set next \<Longrightarrow> map_of old a = Some b"
  proof -
    fix a b assume "(a, b) \<in> set next"
    with d have "map_of next a = Some b" by simp
    with m show "map_of old a = Some b" by (simp split: if_splits)
  qed
  then show ?thesis by (auto simp: changed_def)
qed

lemma removed_del:
  assumes d: "distinct (map fst old)" and m: "map_of next = (map_of old)(k := None)"
  shows "removed old next =
    (case map_of old k of None \<Rightarrow> [] | Some ov \<Rightarrow> [evt k (Str ov) Null])"
proof -
  let ?f = "\<lambda>(k, ov). if map_of next k = None then [evt k (Str ov) Null] else []"
  have "\<forall>x\<in>set old. fst x \<noteq> k \<longrightarrow> ?f x = []"
  proof (intro ballI impI)
    fix x assume x: "x \<in> set old" and ne: "fst x \<noteq> k"
    obtain a b where ab: "x = (a, b)" by (cases x)
    with x d have "map_of old a = Some b" by simp
    with m ne ab have "map_of next a = Some b" by simp
    with ab show "?f x = []" by simp
  qed
  from concat_map_single [OF d this] have
    "removed old next = (case map_of old k of None \<Rightarrow> [] | Some v \<Rightarrow> ?f (k, v))"
    by (simp add: removed_def)
  moreover have "map_of next k = None" using m by simp
  ultimately show ?thesis by (simp split: option.splits)
qed

lemma changed_wellformed:
  "ev \<in> set (changed old next) \<Longrightarrow>
   nullOrString (oldValue ev) \<and> nullOrString (newValue ev) \<and> oldValue ev \<noteq> newValue ev"
  by (auto simp: changed_def evt_def Let_def split: option.splits if_splits)

lemma removed_wellformed:
  "ev \<in> set (removed old next) \<Longrightarrow>
   nullOrString (oldValue ev) \<and> nullOrString (newValue ev) \<and> oldValue ev \<noteq> newValue ev"
  by (auto simp: removed_def evt_def split: if_splits)

section \<open>The end of a transaction\<close>

lemma dispatched_append [simp]: "dispatched (xs @ ys) = dispatched xs @ dispatched ys"
  by (simp add: dispatched_def)

lemma dispatched_Dispatch [simp]: "dispatched (map Dispatch evs) = evs"
  by (induction evs) (simp_all add: dispatched_def)

lemma dispatched_SendUpd [simp]:
  "dispatched (case u of None \<Rightarrow> [] | Some w \<Rightarrow> [SendUpd w]) = []"
  by (cases u) (simp_all add: dispatched_def)

lemma dispatched_notify:
  "dispatched (snd (notify E st r)) =
     (if observed r
      then changed (snap st) (snapshot (entries E (m_doc r))) @
           removed (snap st) (snapshot (entries E (m_doc r)))
      else [])"
  by (simp add: notify_def observeCallback_def Let_def)

lemma effects_notify:
  "e \<in> set (snd (notify E st r)) \<Longrightarrow> (\<exists>ev. e = Dispatch ev) \<or> (\<exists>u. e = SendUpd u)"
  by (auto simp: notify_def observeCallback_def Let_def split: if_splits option.splits)

lemma doc_notify [simp]: "doc (fst (notify E st r)) = m_doc r"
  by (simp add: notify_def observeCallback_def Let_def)

lemma snap_notify:
  "snap (fst (notify E st r)) = (if observed r then snapshot (entries E (m_doc r)) else snap st)"
  by (simp add: notify_def observeCallback_def Let_def)

lemma bus_notify [simp]: "bus (fst (notify E st r)) = bus st"
  by (simp add: notify_def observeCallback_def Let_def)

lemma maxPeers_notify [simp]: "st_maxPeers (fst (notify E st r)) = st_maxPeers st"
  by (simp add: notify_def observeCallback_def Let_def)

lemma synced_notify:
  assumes "distinct (map fst (entries E (m_doc r)))" and "synced E st" and "quiet E (doc st) r"
  shows "synced E (fst (notify E st r))"
  using assms
  by (auto simp: synced_def snap_notify distinct_snapshot map_of_snapshot quiet_def)

lemma synced_fun:
  "synced E st \<Longrightarrow> map_of (snap st) = (\<lambda>k. map_option String (map_of (entries E (doc st)) k))"
  by (auto simp: synced_def)

section \<open>The API on an engine with a lawful map view\<close>

lemma getItem_view:
  "getItem E st k =
     (case map_of (entries E (doc st)) (String k) of None \<Rightarrow> None
      | Some v \<Rightarrow> if v = Undefined then None else Some (String v))"
  by (simp add: getItem_def mapGet_def)

lemma setItem_dispatched:
  assumes E: "map_engine E" and s: "synced E st"
  shows "dispatched (snd (setItem E st k v)) =
     (if map_of (snap st) (String k) = Some (String v) then []
      else [evt (String k) (case map_of (snap st) (String k) of None \<Rightarrow> Null | Some x \<Rightarrow> Str x)
              (Str (String v))])"
proof -
  let ?r = "mapSet E (doc st) (String k) (Str (String v))"
  let ?next = "snapshot (entries E (m_doc ?r))"
  from E have d: "distinct (map fst (entries E (m_doc ?r)))"
    and m: "map_of (entries E (m_doc ?r)) =
              (map_of (entries E (doc st)))(String k \<mapsto> Str (String v))"
    and q: "quiet E (doc st) ?r"
    by (simp_all add: map_engine_def)
  have n: "map_of ?next = (map_of (snap st))(String k \<mapsto> String v)"
    using s by (auto simp: map_of_snapshot_fun [OF d] m synced_fun)
  show ?thesis
  proof (cases "observed ?r")
    case True
    then show ?thesis
      by (simp add: setItem_def dispatched_notify changed_upd [OF distinct_snapshot n]
          removed_upd [OF n])
  next
    case False
    with q have "map_of (entries E (m_doc ?r)) = map_of (entries E (doc st))"
      by (simp add: quiet_def)
    with m have "map_of (entries E (doc st)) (String k) = Some (Str (String v))"
      by (metis fun_upd_same)
    with s have "map_of (snap st) (String k) = Some (String v)" by (simp add: synced_def)
    with False show ?thesis
      by (simp add: setItem_def dispatched_notify)
  qed
qed

lemma setItem_synced:
  assumes E: "map_engine E" and s: "synced E st"
  shows "synced E (fst (setItem E st k v))"
  unfolding setItem_def using E s by (intro synced_notify) (simp_all add: map_engine_def)

lemma getItem_setItem:
  assumes E: "map_engine E"
  shows "getItem E (fst (setItem E st k v)) k' =
     (if String k' = String k then Some (String v) else getItem E st k')"
  using E by (simp add: getItem_view setItem_def map_engine_def)

lemma snap_setItem:
  assumes E: "map_engine E" and s: "synced E st"
  shows "map_of (snap (fst (setItem E st k v))) (String k) = Some (String v)"
proof -
  from setItem_synced [OF E s]
  have "map_of (snap (fst (setItem E st k v))) (String k) =
      map_option String (map_of (entries E (doc (fst (setItem E st k v)))) (String k))"
    by (simp add: synced_def)
  with E show ?thesis by (simp add: setItem_def map_engine_def)
qed

lemma removeItem_dispatched:
  assumes E: "map_engine E" and s: "synced E st"
  shows "dispatched (snd (removeItem E st k)) =
     (case map_of (snap st) (String k) of None \<Rightarrow> []
      | Some x \<Rightarrow> [evt (String k) (Str x) Null])"
proof -
  let ?r = "mapDelete E (doc st) (String k)"
  let ?next = "snapshot (entries E (m_doc ?r))"
  from E have d: "distinct (map fst (entries E (m_doc ?r)))"
    and m: "map_of (entries E (m_doc ?r)) = (map_of (entries E (doc st)))(String k := None)"
    and q: "quiet E (doc st) ?r"
    by (simp_all add: map_engine_def)
  have ds: "distinct (map fst (snap st))" using s by (simp add: synced_def)
  have n: "map_of ?next = (map_of (snap st))(String k := None)"
    using s by (auto simp: map_of_snapshot_fun [OF d] m synced_fun)
  show ?thesis
  proof (cases "observed ?r")
    case True
    then show ?thesis
      by (simp add: removeItem_def dispatched_notify changed_del [OF distinct_snapshot n]
          removed_del [OF ds n])
  next
    case False
    with q have "map_of (entries E (m_doc ?r)) = map_of (entries E (doc st))"
      by (simp add: quiet_def)
    with m have "map_of (entries E (doc st)) (String k) = None"
      by (metis fun_upd_same)
    with s have "map_of (snap st) (String k) = None" by (simp add: synced_def)
    with False show ?thesis
      by (simp add: removeItem_def dispatched_notify)
  qed
qed

lemma getItem_removeItem:
  assumes E: "map_engine E"
  shows "getItem E (fst (removeItem E st k)) k' =
     (if String k' = String k then None else getItem E st k')"
  using E by (simp add: getItem_view removeItem_def map_engine_def)

lemma getItem_clear:
  assumes E: "map_engine E"
  shows "getItem E (fst (clear E st)) k' = None"
  using E by (simp add: getItem_view clear_def map_engine_def)

lemma created_synced:
  assumes E: "map_engine E" and c: "createYStorage E c cfg = Inr (st, fx)"
  shows "synced E st \<and> entries E (doc st) = [] \<and> snap st = []"
  using E c
  by (auto simp: createYStorage_def Let_def synced_def map_engine_def snapshot_def
      split: if_splits)

section \<open>The reference engine is lawful\<close>

lemma keys_visible: "fst ` set (visible xs) \<subseteq> fst ` set xs"
  by (induction xs rule: visible.induct) (auto split: option.splits)

lemma distinct_visible: "distinct (map fst xs) \<Longrightarrow> distinct (map fst (visible xs))"
proof (induction xs rule: visible.induct)
  case 1
  then show ?case by simp
next
  case (2 k s v xs)
  then have "k \<notin> fst ` set xs" by simp
  with keys_visible have "k \<notin> fst ` set (visible xs)" by blast
  with 2 show ?case by (cases v) simp_all
qed

lemma map_of_visible:
  "distinct (map fst xs) \<Longrightarrow>
   map_of (visible xs) k = (case map_of xs k of Some (s, Some v) \<Rightarrow> Some v | _ \<Rightarrow> None)"
proof (induction xs rule: visible.induct)
  case 1
  then show ?case by simp
next
  case (2 a s v xs)
  then have "a \<notin> fst ` set xs" by simp
  with keys_visible have "a \<notin> fst ` set (visible xs)" by blast
  then have n: "map_of (visible xs) a = None" by (simp add: map_of_eq_None_iff)
  from 2 have m: "map_of xs a = None" by (simp add: map_of_eq_None_iff)
  from 2 n m show ?case by (cases v) simp_all
qed

lemma map_of_lww_entries:
  "map_of (lww_entries d) k =
     (case map_of (items d) k of Some (s, Some v) \<Rightarrow> Some v | _ \<Rightarrow> None)"
  by (simp add: lww_entries_def map_of_visible map_of_clearjunk)

lemma distinct_lww_entries: "distinct (map fst (lww_entries d))"
  by (simp add: lww_entries_def distinct_visible)

lemma map_of_put_all_const:
  "map_of (put_all (map (\<lambda>k. (k, s, v)) ks) xs) k =
     (if k \<in> set ks then Some (s, v) else map_of xs k)"
  unfolding put_all_def
  by (induction ks arbitrary: xs) (auto simp: update_conv')

lemma map_of_put_all:
  "distinct (map fst u) \<Longrightarrow>
   map_of (put_all u xs) k = (case map_of u k of None \<Rightarrow> map_of xs k | Some x \<Rightarrow> Some x)"
  unfolding put_all_def
proof (induction u arbitrary: xs)
  case Nil
  then show ?case by simp
next
  case (Cons e u)
  obtain a b where e: "e = (a, b)" by (cases e)
  from Cons.prems e have "map_of u a = None" by (simp add: map_of_eq_None_iff)
  with Cons e show ?case by (auto simp: update_conv' split: option.splits)
qed

lemma lww_clear_empty: "lww_entries (m_doc (lww_clear d)) = []"
proof -
  have "map_of (lww_entries (m_doc (lww_clear d))) k = None" for k
  proof (cases "k \<in> set (map fst (lww_entries d))")
    case True
    then show ?thesis
      by (simp add: map_of_lww_entries lww_clear_def lww_write_def map_of_put_all_const
          del: map_map)
  next
    case False
    then have "map_of (lww_entries d) k = None" by (simp add: map_of_eq_None_iff)
    with False show ?thesis
      by (simp add: map_of_lww_entries lww_clear_def lww_write_def map_of_put_all_const
          del: map_map)
  qed
  then have "map_of (lww_entries (m_doc (lww_clear d))) = Map.empty" by (rule ext)
  then show ?thesis by simp
qed

lemma quiet_lww_write: "quiet lww d (lww_write d u)"
  by (simp add: quiet_def lww_write_def put_all_def lww_def)

lemma lww_map_engine: "map_engine lww"
  unfolding map_engine_def
proof (intro conjI allI)
  fix c show "entries lww (newDoc lww c) = []"
    by (simp add: lww_def lww_entries_def)
next
  fix d show "distinct (map fst (entries lww d))"
    by (simp add: lww_def distinct_lww_entries)
next
  fix d k v
  show "map_of (entries lww (m_doc (mapSet lww d k v))) = (map_of (entries lww d))(k \<mapsto> v)"
    by (rule ext)
      (simp add: lww_def map_of_lww_entries lww_set_def lww_write_def put_all_def update_conv')
next
  fix d k
  show "map_of (entries lww (m_doc (mapDelete lww d k))) = (map_of (entries lww d))(k := None)"
  proof (rule ext)
    fix k'
    show "map_of (entries lww (m_doc (mapDelete lww d k))) k' =
          ((map_of (entries lww d))(k := None)) k'"
    proof (cases "map_of (lww_entries d) k")
      case None
      then show ?thesis
        by (simp add: lww_def lww_delete_def lww_write_def put_all_def)
    next
      case (Some x)
      then show ?thesis
        by (simp add: lww_def lww_delete_def lww_write_def put_all_def map_of_lww_entries
            update_conv')
    qed
  qed
next
  fix d show "entries lww (m_doc (mapClear lww d)) = []"
    by (simp add: lww_def lww_clear_empty)
next
  fix d k v show "quiet lww d (mapSet lww d k v)"
    using quiet_lww_write by (simp add: lww_def lww_set_def)
next
  fix d k show "quiet lww d (mapDelete lww d k)"
    using quiet_lww_write by (simp add: lww_def lww_delete_def)
next
  fix d show "quiet lww d (mapClear lww d)"
    using quiet_lww_write by (simp add: lww_def lww_clear_def)
qed

lemma lww_sync_engine: "sync_engine lww"
  unfolding sync_engine_def
proof (intro allI ext)
  fix a c k
  show "map_of (entries lww (m_doc (applyUpdate lww (newDoc lww c)
          (encodeStateAsUpdate lww a (encodeStateVector lww (newDoc lww c)))))) k =
        map_of (entries lww a) k"
    by (simp add: lww_def lww_apply_def lww_diff_def lww_sv_def missing_def Let_def
        map_of_lww_entries map_of_put_all map_of_clearjunk clearjunk_idem split: option.splits)
qed

lemma created_fresh: "createYStorage lww c plain = Inr (fresh c None, [JoinRoom (Str ''app'') None None (Str ''room'')])"
  by (simp add: createYStorage_def plain_def fresh_def lww_def lww_entries_def snapshot_def)

lemma created_capped: "createYStorage lww c (capped m) = Inr (fresh c (Some m), [JoinRoom (Str ''app'') None None (Str ''room'')])"
  by (simp add: createYStorage_def capped_def plain_def fresh_def lww_def lww_entries_def snapshot_def)

section \<open>Properties of runs\<close>

lemma destroy_eq: "destroy E st left = (st\<lparr>doc := fst (docDestroy E (doc st))\<rparr>, [LeaveRoom])"
  by (simp add: destroy_def split_def)

lemma exec_api [simp]:
  "exec E st (SetItem k v) = setItem E st k v"
  "exec E st (RemoveItem k) = removeItem E st k"
  "exec E st Clear = clear E st"
  "exec E st (AddEventListener ty fn) = (addEventListener st ty fn, [])"
  "exec E st (RemoveEventListener ty fn) = (removeEventListener st ty fn, [])"
  "exec E st (Destroy t) = destroy E st t"
  "exec E st (PeerJoin p ps) = (st, onPeerJoin E st ps p)"
  by (simp_all add: exec_def)

lemma maxPeers_exec [simp]: "st_maxPeers (fst (exec E st i)) = st_maxPeers st"
proof (cases i)
  case (RecvSync2 b p)
  then show ?thesis by (cases "toU8 b") (simp_all add: exec_def onSync2_def)
next
  case (RecvUpd b p)
  then show ?thesis by (cases "toU8 b") (simp_all add: exec_def onUpd_def)
qed (simp_all add: exec_def onSync1_def setItem_def removeItem_def clear_def
      addEventListener_def removeEventListener_def destroy_eq split: sum.splits)

lemma maxPeers_final [simp]: "st_maxPeers (final E st is) = st_maxPeers st"
  by (induction "is" arbitrary: st) simp_all

lemma toU8_deliver [simp]: "toU8 (deliver c w) = Inr w"
  by (cases c) simp_all

section \<open>Construction\<close>

text \<open>
  C7: construction without an application identifier or without a room identifier raises
  at once, the application identifier being tested first, and returns no instance and
  joins no room; with both identifiers given it raises nothing, creates the document and
  joins the room exactly once. An identifier counts as missing when it is falsy, which is
  the test the source makes.
\<close>

theorem createYStorage_requires_identifiers:
  "(\<not> truthy (appId cfg) \<longrightarrow>
      createYStorage E c cfg = Inl (Error ''createYStorage: appId is required'')) \<and>
   (truthy (appId cfg) \<and> \<not> truthy (roomId cfg) \<longrightarrow>
      createYStorage E c cfg = Inl (Error ''createYStorage: roomId is required'')) \<and>
   (truthy (appId cfg) \<and> truthy (roomId cfg) \<longrightarrow>
      (\<exists>st rs pw. createYStorage E c cfg = Inr (st, [JoinRoom (appId cfg) rs pw (roomId cfg)]) \<and>
         doc st = newDoc E c \<and> bus st = [] \<and> st_maxPeers st = maxPeers cfg))"
  by (simp add: createYStorage_def Let_def)

theorem createYStorage_requires_identifiers_witness:
  "createYStorage lww 1 (plain\<lparr>appId := Undefined\<rparr>) =
     Inl (Error ''createYStorage: appId is required'') \<and>
   createYStorage lww 1 (plain\<lparr>roomId := Undefined\<rparr>) =
     Inl (Error ''createYStorage: roomId is required'') \<and>
   createYStorage lww 1 (plain\<lparr>appId := Undefined, roomId := Undefined\<rparr>) =
     Inl (Error ''createYStorage: appId is required'') \<and>
   (\<exists>st rs pw. createYStorage lww 1 plain = Inr (st, [JoinRoom (Str ''app'') rs pw (Str ''room'')]))"
  using createYStorage_requires_identifiers [of "plain\<lparr>appId := Undefined\<rparr>" lww 1]
    createYStorage_requires_identifiers [of "plain\<lparr>roomId := Undefined\<rparr>" lww 1]
    createYStorage_requires_identifiers [of "plain\<lparr>appId := Undefined, roomId := Undefined\<rparr>" lww 1]
    createYStorage_requires_identifiers [of plain lww 1]
  by (auto simp: plain_def)

section \<open>The peer ceiling\<close>

text \<open>
  C9: an instance configured with the peer ceiling 0 answers every observed join, at any
  moment of its life and whatever the number of peers known at that moment, by sending
  exactly one sync-request with its state summary to the peer that joined: the gate is
  skipped, 0 being falsy.
\<close>

theorem ceiling_zero_never_gates:
  assumes "createYStorage E c cfg = Inr (st0, fx0)" and "maxPeers cfg = Some 0"
  shows "exec E (final E st0 is) (PeerJoin p ps) =
           (final E st0 is, [SendSync1 (encodeStateVector E (doc (final E st0 is))) p])"
proof -
  from assms have "st_maxPeers st0 = Some 0"
    by (auto simp: createYStorage_def Let_def split: if_splits)
  then have "st_maxPeers (final E st0 is) = Some 0" by simp
  then show ?thesis by (simp add: exec_def onPeerJoin_def gated_def)
qed

theorem ceiling_zero_never_gates_witness:
  "createYStorage lww 1 (capped 0) =
     Inr (fresh 1 (Some 0), [JoinRoom (Str ''app'') None None (Str ''room'')]) \<and>
   maxPeers (capped 0) = Some 0 \<and>
   exec lww (final lww (fresh 1 (Some 0)) [PeerJoin ''p'' (Some (PeerObject [''p'']))])
     (PeerJoin ''q'' (Some (PeerObject [''p'', ''q'']))) =
     (fresh 1 (Some 0), [SendSync1 [] ''q''])"
proof -
  have h: "createYStorage lww 1 (capped 0) =
     Inr (fresh 1 (Some 0), [JoinRoom (Str ''app'') None None (Str ''room'')])"
    by (rule created_capped)
  have m: "maxPeers (capped 0) = Some 0" by (simp add: capped_def)
  have f: "final lww (fresh 1 (Some 0)) [PeerJoin ''p'' (Some (PeerObject [''p'']))] = fresh 1 (Some 0)"
    by (simp add: exec_def)
  have s: "encodeStateVector lww (doc (fresh 1 (Some 0))) = []"
    by (simp add: lww_def lww_sv_def fresh_def)
  from ceiling_zero_never_gates [OF h m, of "[PeerJoin ''p'' (Some (PeerObject [''p'']))]" "''q''"
      "Some (PeerObject [''p'', ''q''])"] h m f s
  show ?thesis by simp
qed

lemma gate_fires_on_peer_array:
  assumes "st_maxPeers st = Some m" and "m \<noteq> 0" and "m < int (length ps)"
  shows "onPeerJoin E st (Some (PeerArray ps)) p = []"
  using assms by (simp add: onPeerJoin_def gated_def)

text \<open>
  C5: the gate compares the ceiling with the \<^verbatim>\<open>length\<close> property of what
  \<^verbatim>\<open>room.getPeers()\<close> answers. On a room that answers an object keyed by peer
  identifier, as the room of the imported transport does, that property is
  \<^verbatim>\<open>undefined\<close> and the comparison is false: whatever the ceiling and however many peers
  are known, an observed join is answered by one sync-request with the state summary to the
  peer that joined. With the ceiling 1 the join of a second peer is therefore not gated,
  contrary to the claim.
\<close>

theorem ceiling_not_applied_to_peer_object:
  "exec E st (PeerJoin p (Some (PeerObject ks))) =
     (st, [SendSync1 (encodeStateVector E (doc st)) p])"
  by (simp add: onPeerJoin_def gated_def split: option.splits)

theorem ceiling_not_applied_to_peer_object_witness:
  "createYStorage lww 1 (capped 1) =
     Inr (fresh 1 (Some 1), [JoinRoom (Str ''app'') None None (Str ''room'')]) \<and>
   final lww (fresh 1 (Some 1)) [PeerJoin ''p'' (Some (PeerObject [''p'']))] = fresh 1 (Some 1) \<and>
   exec lww (fresh 1 (Some 1)) (PeerJoin ''q'' (Some (PeerObject [''p'', ''q'']))) =
     (fresh 1 (Some 1), [SendSync1 [] ''q''])"
proof -
  have h: "createYStorage lww 1 (capped 1) =
     Inr (fresh 1 (Some 1), [JoinRoom (Str ''app'') None None (Str ''room'')])"
    by (rule created_capped)
  have f: "final lww (fresh 1 (Some 1)) [PeerJoin ''p'' (Some (PeerObject [''p'']))] =
     fresh 1 (Some 1)" by simp
  have s: "encodeStateVector lww (doc (fresh 1 (Some 1))) = []"
    by (simp add: lww_def lww_sv_def fresh_def)
  from ceiling_not_applied_to_peer_object [of lww "fresh 1 (Some 1)" "''q''" "[''p'', ''q'']"] h f s
  show ?thesis by simp
qed

section \<open>Payloads that are not binary\<close>

text \<open>
  C1, as the code has it: when a message arrives on any of the three channels with a
  payload \<^verbatim>\<open>toU8\<close> does not recognise, the handler stops at once by throwing
  "Unexpected binary type"; the exception is not caught in the module and leaves the handler
  towards the transport that invoked it. Nothing is sent or dispatched, the document, the
  snapshot and the listeners are unchanged, and the inputs that follow are handled as if the
  message had not arrived.
\<close>

theorem undecodable_payload_throws_unchanged:
  assumes "toU8 b = Inl e" and "i \<in> {RecvSync1 b p, RecvSync2 b p, RecvUpd b p}"
  shows "e = Error ''Unexpected binary type'' \<and> step E st i = Inl e \<and>
         exec E st i = (st, [Uncaught e]) \<and> trace E st (i # is) = (i, [Uncaught e]) # trace E st is"
proof -
  from assms(1) have e: "e = Error ''Unexpected binary type''" by (cases b) simp_all
  from assms have s: "step E st i = Inl e"
    by (auto simp: onSync1_def onSync2_def onUpd_def)
  then have x: "exec E st i = (st, [Uncaught e])" by (simp add: exec_def)
  with e s show ?thesis by simp
qed

theorem undecodable_payload_throws_unchanged_witness:
  "toU8 (NotBinary (Str ''hello'') :: lww_items payload) = Inl (Error ''Unexpected binary type'') \<and>
   exec lww (fresh 1 None) (RecvUpd (NotBinary (Str ''hello'')) ''p'') =
     (fresh 1 None, [Uncaught (Error ''Unexpected binary type'')]) \<and>
   trace lww (fresh 1 None) [RecvUpd (NotBinary (Str ''hello'')) ''p'', PeerJoin ''q'' None] =
     [(RecvUpd (NotBinary (Str ''hello'')) ''p'', [Uncaught (Error ''Unexpected binary type'')]),
      (PeerJoin ''q'' None, [SendSync1 [] ''q''])]"
proof -
  have h: "toU8 (NotBinary (Str ''hello'') :: lww_items payload) =
      Inl (Error ''Unexpected binary type'')" by simp
  have i: "RecvUpd (NotBinary (Str ''hello'')) ''p'' \<in>
      {RecvSync1 (NotBinary (Str ''hello'')) ''p'', RecvSync2 (NotBinary (Str ''hello'')) ''p'',
       RecvUpd (NotBinary (Str ''hello'') :: lww_items payload) ''p''}" by simp
  have t: "trace lww (fresh 1 None) [PeerJoin ''q'' None] = [(PeerJoin ''q'' None, [SendSync1 [] ''q''])]"
    by (simp add: exec_def onPeerJoin_def gated_def fresh_def lww_def lww_sv_def)
  from undecodable_payload_throws_unchanged [OF h i, of lww "fresh 1 None" "[PeerJoin ''q'' None]"] t
  show ?thesis by simp
qed

text \<open>
  C1 as stated fails: the error does reach the caller of the handler.
\<close>

theorem undecodable_payload_counterexample:
  "step lww (fresh 1 None) (RecvSync2 (NotBinary (Str ''hello'')) ''p'') =
     Inl (Error ''Unexpected binary type'')"
  by (simp add: onSync2_def)

section \<open>Change events\<close>

text \<open>
  C3: on a new instance, whose map is empty, \<^verbatim>\<open>setItem(k, v1)\<close> dispatches exactly one
  change event, with the key, old value \<^verbatim>\<open>null\<close> and the new value; \<^verbatim>\<open>setItem(k, v2)\<close>
  with a different value then dispatches exactly one, from the first value to the second;
  and \<^verbatim>\<open>removeItem(k)\<close> then dispatches exactly one, from the second value to
  \<^verbatim>\<open>null\<close>. The claim is the case of the key "a" and the values "1" and "2".
\<close>

theorem change_events_set_update_remove:
  assumes E: "map_engine E" and c: "createYStorage E c cfg = Inr (st0, fx0)"
    and ne: "String v1 \<noteq> String v2"
  shows "map (\<lambda>(i, fx). dispatched fx) (trace E st0 [SetItem k v1, SetItem k v2, RemoveItem k]) =
     [[evt (String k) Null (Str (String v1))],
      [evt (String k) (Str (String v1)) (Str (String v2))],
      [evt (String k) (Str (String v2)) Null]]"
proof -
  let ?st1 = "fst (setItem E st0 k v1)"
  let ?st2 = "fst (setItem E ?st1 k v2)"
  from created_synced [OF E c] have s0: "synced E st0" and g0: "map_of (snap st0) (String k) = None"
    by simp_all
  have s1: "synced E ?st1" by (rule setItem_synced [OF E s0])
  have g1: "map_of (snap ?st1) (String k) = Some (String v1)" by (rule snap_setItem [OF E s0])
  have s2: "synced E ?st2" by (rule setItem_synced [OF E s1])
  have g2: "map_of (snap ?st2) (String k) = Some (String v2)" by (rule snap_setItem [OF E s1])
  have d1: "dispatched (snd (setItem E st0 k v1)) = [evt (String k) Null (Str (String v1))]"
    by (simp add: setItem_dispatched [OF E s0] g0)
  have d2: "dispatched (snd (setItem E ?st1 k v2)) =
      [evt (String k) (Str (String v1)) (Str (String v2))]"
    using ne by (simp add: setItem_dispatched [OF E s1] g1)
  have d3: "dispatched (snd (removeItem E ?st2 k)) = [evt (String k) (Str (String v2)) Null]"
    by (simp add: removeItem_dispatched [OF E s2] g2)
  from d1 d2 d3 show ?thesis by simp
qed

theorem change_events_set_update_remove_witness:
  "map_engine lww \<and>
   createYStorage lww 1 plain =
     Inr (fresh 1 None, [JoinRoom (Str ''app'') None None (Str ''room'')]) \<and>
   String (Str ''1'') \<noteq> String (Str ''2'') \<and>
   map (\<lambda>(i, fx). dispatched fx)
     (trace lww (fresh 1 None)
        [SetItem (Str ''a'') (Str ''1''), SetItem (Str ''a'') (Str ''2''), RemoveItem (Str ''a'')]) =
     [[\<lparr>key = ''a'', oldValue = Null, newValue = Str ''1''\<rparr>],
      [\<lparr>key = ''a'', oldValue = Str ''1'', newValue = Str ''2''\<rparr>],
      [\<lparr>key = ''a'', oldValue = Str ''2'', newValue = Null\<rparr>]]"
proof -
  have h: "createYStorage lww 1 plain =
     Inr (fresh 1 None, [JoinRoom (Str ''app'') None None (Str ''room'')])"
    by (rule created_fresh)
  have n: "String (Str ''1'') \<noteq> String (Str ''2'')" by simp
  from change_events_set_update_remove [OF lww_map_engine h n, of "Str ''a''"]
    lww_map_engine h n
  show ?thesis by (simp add: evt_def)
qed

lemma dispatched_notify_wellformed:
  assumes "ev \<in> set (dispatched (snd (notify E st r)))"
  shows "nullOrString (oldValue ev) \<and> nullOrString (newValue ev) \<and> oldValue ev \<noteq> newValue ev"
  using assms changed_wellformed removed_wellformed
  by (fastforce simp: dispatched_notify split: if_splits)

lemma dispatched_exec_wellformed:
  assumes "ev \<in> set (dispatched (snd (exec E st i)))"
  shows "nullOrString (oldValue ev) \<and> nullOrString (newValue ev) \<and> oldValue ev \<noteq> newValue ev"
proof (cases i)
  case (PeerJoin p ps)
  with assms show ?thesis by (simp add: onPeerJoin_def dispatched_def split: if_splits)
next
  case (RecvSync1 b p)
  with assms show ?thesis
    by (cases "toU8 b") (simp_all add: exec_def onSync1_def dispatched_def)
next
  case (RecvSync2 b p)
  with assms show ?thesis
    by (cases "toU8 b")
      (simp_all add: exec_def onSync2_def dispatched_def [of "[Uncaught e]" for e]
        dispatched_notify_wellformed)
next
  case (RecvUpd b p)
  with assms show ?thesis
    by (cases "toU8 b")
      (simp_all add: exec_def onUpd_def dispatched_def [of "[Uncaught e]" for e]
        dispatched_notify_wellformed)
next
  case (SetItem k v)
  with assms show ?thesis by (simp add: setItem_def dispatched_notify_wellformed)
next
  case (RemoveItem k)
  with assms show ?thesis by (simp add: removeItem_def dispatched_notify_wellformed)
next
  case Clear
  with assms show ?thesis by (simp add: clear_def dispatched_notify_wellformed)
next
  case (AddEventListener ty fn)
  with assms show ?thesis by (simp add: dispatched_def)
next
  case (RemoveEventListener ty fn)
  with assms show ?thesis by (simp add: dispatched_def)
next
  case (Destroy t)
  with assms show ?thesis by (simp add: destroy_eq dispatched_def)
qed

text \<open>
  C10: in every run of an instance, from any state and on any engine, each change event
  dispatched carries as old value and as new value either \<^verbatim>\<open>null\<close> or a string, and the
  two are never equal.
\<close>

theorem change_events_wellformed:
  assumes "(i, fx) \<in> set (trace E st is)" and "ev \<in> set (dispatched fx)"
  shows "nullOrString (oldValue ev) \<and> nullOrString (newValue ev) \<and> oldValue ev \<noteq> newValue ev"
  using assms
proof (induction "is" arbitrary: st)
  case Nil
  then show ?case by simp
next
  case (Cons j js)
  from Cons.prems(1) consider "(i, fx) = (j, snd (exec E st j))"
    | "(i, fx) \<in> set (trace E (fst (exec E st j)) js)" by auto
  then show ?case
  proof cases
    case 1
    with Cons.prems(2) show ?thesis by (simp add: dispatched_exec_wellformed)
  next
    case 2
    with Cons.IH Cons.prems(2) show ?thesis by blast
  qed
qed

theorem change_events_wellformed_witness:
  "(SetItem (Str ''a'') (Num False 2), [Dispatch \<lparr>key = ''a'', oldValue = Str ''1'', newValue = Str ''2''\<rparr>,
      SendUpd [(''a'', (2, 1), Some (Str ''2''))]])
     \<in> set (trace lww (fresh 1 None) [SetItem (Str ''a'') (Num False 1), SetItem (Str ''a'') (Num False 2)]) \<and>
   \<lparr>key = ''a'', oldValue = Str ''1'', newValue = Str ''2''\<rparr> \<in> set (dispatched
     [Dispatch \<lparr>key = ''a'', oldValue = Str ''1'', newValue = Str ''2''\<rparr>,
      SendUpd [(''a'', (2, 1), Some (Str ''2''))]]) \<and>
   nullOrString (oldValue \<lparr>key = ''a'', oldValue = Str ''1'', newValue = Str ''2''\<rparr>) \<and>
   nullOrString (newValue \<lparr>key = ''a'', oldValue = Str ''1'', newValue = Str ''2''\<rparr>) \<and>
   oldValue \<lparr>key = ''a'', oldValue = Str ''1'', newValue = Str ''2''\<rparr> \<noteq>
     newValue \<lparr>key = ''a'', oldValue = Str ''1'', newValue = Str ''2''\<rparr>"
proof -
  let ?ev = "\<lparr>key = ''a'', oldValue = Str ''1'', newValue = Str ''2''\<rparr>"
  let ?fx = "[Dispatch ?ev, SendUpd [(''a'', (2, 1), Some (Str ''2''))]]"
  have t: "(SetItem (Str ''a'') (Num False 2), ?fx)
     \<in> set (trace lww (fresh 1 None) [SetItem (Str ''a'') (Num False 1), SetItem (Str ''a'') (Num False 2)])"
    by code_simp
  have d: "?ev \<in> set (dispatched ?fx)" by (simp add: dispatched_def)
  from change_events_wellformed [OF t d] t d show ?thesis by simp
qed

section \<open>Reading back what was stored\<close>

lemma view_exec_api:
  assumes E: "map_engine E" and a: "api_call i"
  shows "(\<lambda>s. getItem E (fst (exec E st i)) (Str s)) = storage_model i (\<lambda>s. getItem E st (Str s))"
proof (cases i)
  case (SetItem k v)
  then show ?thesis by (auto simp: getItem_setItem [OF E])
next
  case (RemoveItem k)
  then show ?thesis by (auto simp: getItem_removeItem [OF E])
next
  case Clear
  then show ?thesis by (simp add: getItem_clear [OF E])
next
  case (AddEventListener ty fn)
  then show ?thesis by (simp add: getItem_view addEventListener_def)
next
  case (RemoveEventListener ty fn)
  then show ?thesis by (simp add: getItem_view removeEventListener_def)
qed (use a in simp_all)

lemma view_final_api:
  assumes E: "map_engine E"
  shows "list_all api_call ops \<Longrightarrow>
    (\<lambda>s. getItem E (final E st ops) (Str s)) = fold storage_model ops (\<lambda>s. getItem E st (Str s))"
proof (induction ops arbitrary: st)
  case Nil
  then show ?case by simp
next
  case (Cons i ops)
  then have "api_call i" and "list_all api_call ops" by simp_all
  with Cons.IH [of "fst (exec E st i)"] view_exec_api [OF E, of i st]
  show ?case by simp
qed

lemma getItem_Str_String: "getItem E st (Str (String k)) = getItem E st k"
  by (simp add: getItem_view)

text \<open>
  C6: on an engine with a lawful map view, \<^verbatim>\<open>getItem(k)\<close> right after
  \<^verbatim>\<open>setItem(k, v)\<close> returns \<^verbatim>\<open>String(v)\<close>, from any state of the instance; and after any
  sequence of API calls on a new instance, \<^verbatim>\<open>getItem\<close> returns what a map from strings
  to strings holds on which every set stored the coerced key and value: \<^verbatim>\<open>null\<close> for a
  key never set, or removed or cleared since it was last set.
\<close>

theorem getItem_reads_coerced_store:
  assumes E: "map_engine E" and c: "createYStorage E c cfg = Inr (st0, fx0)"
    and a: "list_all api_call ops"
  shows "getItem E (fst (setItem E st k v)) k = Some (String v) \<and>
         getItem E (final E st0 ops) k' = fold storage_model ops Map.empty (String k')"
proof -
  from created_synced [OF E c] have "(\<lambda>s. getItem E st0 (Str s)) = Map.empty"
    by (simp add: getItem_view)
  with view_final_api [OF E a, of st0]
  have "(\<lambda>s. getItem E (final E st0 ops) (Str s)) = fold storage_model ops Map.empty" by simp
  then have "getItem E (final E st0 ops) (Str (String k')) =
      fold storage_model ops Map.empty (String k')" by (rule fun_cong)
  then show ?thesis by (simp add: getItem_Str_String getItem_setItem [OF E])
qed

theorem getItem_reads_coerced_store_witness:
  "map_engine lww \<and>
   createYStorage lww 1 plain =
     Inr (fresh 1 None, [JoinRoom (Str ''app'') None None (Str ''room'')]) \<and>
   list_all api_call [SetItem (Num False 7) (Bool True), SetItem (Str ''b'') Null, RemoveItem (Str ''b'') ::
     lww_items input] \<and>
   getItem lww (fst (setItem lww (fresh 1 None) (Num False 7) (Bool True))) (Num False 7) = Some ''true'' \<and>
   getItem lww (final lww (fresh 1 None)
     [SetItem (Num False 7) (Bool True), SetItem (Str ''b'') Null, RemoveItem (Str ''b'')]) (Str ''7'') =
     Some ''true'' \<and>
   getItem lww (final lww (fresh 1 None)
     [SetItem (Num False 7) (Bool True), SetItem (Str ''b'') Null, RemoveItem (Str ''b'')]) (Str ''b'') =
     None \<and>
   getItem lww (final lww (fresh 1 None)
     [SetItem (Num False 7) (Bool True), SetItem (Str ''b'') Null, RemoveItem (Str ''b'')]) (Str ''c'') =
     None"
proof -
  let ?ops = "[SetItem (Num False 7) (Bool True), SetItem (Str ''b'') Null, RemoveItem (Str ''b'') ::
     lww_items input]"
  have h: "createYStorage lww 1 plain =
     Inr (fresh 1 None, [JoinRoom (Str ''app'') None None (Str ''room'')])"
    by (rule created_fresh)
  have a: "list_all api_call ?ops" by simp
  have s: "String (Num False 7) = ''7''" by code_simp
  from getItem_reads_coerced_store [OF lww_map_engine h a, of "fresh 1 None" "Num False 7" "Bool True" "Str ''7''"]
    getItem_reads_coerced_store [OF lww_map_engine h a, of "fresh 1 None" "Num False 7" "Bool True" "Str ''b''"]
    getItem_reads_coerced_store [OF lww_map_engine h a, of "fresh 1 None" "Num False 7" "Bool True" "Str ''c''"]
    lww_map_engine h a s
  show ?thesis by simp
qed

section \<open>What makes a peer send a sync message\<close>

lemma sync_effects_exec:
  assumes "e \<in> set (snd (exec E st i))"
  shows "(e = SendSync2 w p \<longrightarrow> (\<exists>b. i = RecvSync1 b p) \<and> snd (exec E st i) = [e]) \<and>
         (e = SendSync1 w p \<longrightarrow> (\<exists>ps. i = PeerJoin p ps) \<and> snd (exec E st i) = [e])"
proof (cases i)
  case (PeerJoin q ps)
  with assms show ?thesis by (auto simp: onPeerJoin_def split: if_splits)
next
  case (RecvSync1 b q)
  with assms show ?thesis by (cases "toU8 b") (auto simp: exec_def onSync1_def)
next
  case (RecvSync2 b q)
  with assms effects_notify [of e E st] show ?thesis
    by (cases "toU8 b") (auto simp: exec_def onSync2_def)
next
  case (RecvUpd b q)
  with assms effects_notify [of e E st] show ?thesis
    by (cases "toU8 b") (auto simp: exec_def onUpd_def)
next
  case (SetItem k v)
  with assms effects_notify [of e E st] show ?thesis by (auto simp: setItem_def)
next
  case (RemoveItem k)
  with assms effects_notify [of e E st] show ?thesis by (auto simp: removeItem_def)
next
  case Clear
  with assms effects_notify [of e E st] show ?thesis by (auto simp: clear_def)
next
  case (AddEventListener ty fn)
  with assms show ?thesis by simp
next
  case (RemoveEventListener ty fn)
  with assms show ?thesis by simp
next
  case (Destroy t)
  with assms show ?thesis by (auto simp: destroy_eq)
qed

text \<open>
  C4: in every run of an instance, from any state and on any engine, a sync-response is
  among the effects of an input only if that input is the receipt of a sync-request, and it
  is then the only effect and addressed to the peer the request came from; a sync-request is
  among the effects of an input only if that input is an observed join, and it is then the
  only effect and addressed to the peer that joined.
\<close>

theorem sync_messages_only_on_their_trigger:
  assumes "(i, fx) \<in> set (trace E st is)"
  shows "(SendSync2 w p \<in> set fx \<longrightarrow> (\<exists>b. i = RecvSync1 b p) \<and> fx = [SendSync2 w p]) \<and>
         (SendSync1 w p \<in> set fx \<longrightarrow> (\<exists>ps. i = PeerJoin p ps) \<and> fx = [SendSync1 w p])"
  using assms
proof (induction "is" arbitrary: st)
  case Nil
  then show ?case by simp
next
  case (Cons j js)
  from Cons.prems consider "i = j \<and> fx = snd (exec E st j)"
    | "(i, fx) \<in> set (trace E (fst (exec E st j)) js)" by auto
  then show ?case
  proof cases
    case 1
    with sync_effects_exec [of "SendSync2 w p" E st j w p]
      sync_effects_exec [of "SendSync1 w p" E st j w p]
    show ?thesis by blast
  next
    case 2
    with Cons.IH show ?thesis by blast
  qed
qed

theorem sync_messages_only_on_their_trigger_witness:
  "(RecvSync1 (Uint8Array []) ''q'', [SendSync2 [(''a'', (1, 1), Some (Str ''1''))] ''q''])
     \<in> set (trace lww (fresh 1 None)
         [SetItem (Str ''a'') (Str ''1''), PeerJoin ''q'' None, RecvSync1 (Uint8Array []) ''q'']) \<and>
   (PeerJoin ''q'' None, [SendSync1 [(''a'', (1, 1), None)] ''q''])
     \<in> set (trace lww (fresh 1 None)
         [SetItem (Str ''a'') (Str ''1''), PeerJoin ''q'' None, RecvSync1 (Uint8Array []) ''q'']) \<and>
   (\<exists>b. RecvSync1 (Uint8Array []) ''q'' = (RecvSync1 b ''q'' :: lww_items input)) \<and>
   (\<exists>ps. PeerJoin ''q'' None = (PeerJoin ''q'' ps :: lww_items input))"
proof -
  let ?is = "[SetItem (Str ''a'') (Str ''1''), PeerJoin ''q'' None, RecvSync1 (Uint8Array []) ''q'']"
  have a: "(RecvSync1 (Uint8Array []) ''q'', [SendSync2 [(''a'', (1, 1), Some (Str ''1''))] ''q''])
     \<in> set (trace lww (fresh 1 None) ?is)" by code_simp
  have b: "(PeerJoin ''q'' None, [SendSync1 [(''a'', (1, 1), None)] ''q''])
     \<in> set (trace lww (fresh 1 None) ?is)" by code_simp
  from sync_messages_only_on_their_trigger [OF a, of "[(''a'', (1, 1), Some (Str ''1''))]" "''q''"]
    sync_messages_only_on_their_trigger [OF b, of "[(''a'', (1, 1), None)]" "''q''"] a b
  show ?thesis by simp
qed

section \<open>The handshake between two instances\<close>

lemma roundtrip_initiator:
  assumes "\<not> gated (st_maxPeers a) ps"
  shows "fst (roundtrip E c a ida b idb ps) =
     fst (notify E a (applyUpdate E (doc a)
       (encodeStateAsUpdate E (doc b) (encodeStateVector E (doc a)))))"
  using assms
  by (simp add: roundtrip_def inbox_def onPeerJoin_def exec_def onSync1_def onSync2_def Let_def)

lemma roundtrip_responder: "snd (roundtrip E c a ida b idb ps) = b"
  by (simp add: roundtrip_def inbox_def onPeerJoin_def exec_def onSync1_def Let_def)

text \<open>
  C2: when a new instance \<open>b\<close>, with its empty map and on which the gate does not apply,
  observes the join of the peer of \<open>a\<close> and sends its summary as sync-request, \<open>a\<close>
  answers with the diff as sync-response and \<open>b\<close> applies it, then \<^verbatim>\<open>getItem\<close> on
  \<open>b\<close> returns for every key what it returns on \<open>a\<close>: "1" for the key "x" when \<open>a\<close>
  holds it. The instance that answers, \<open>a\<close>, is after the round trip as it was before.
\<close>

theorem roundtrip_pulls_responder_map:
  assumes E: "sync_engine E" and c: "createYStorage E cb cfg = Inr (b, fxb)"
    and g: "\<not> gated (maxPeers cfg) ps"
  shows "getItem E (fst (roundtrip E c b idb a ida ps)) k = getItem E a k \<and>
         snd (roundtrip E c b idb a ida ps) = a"
proof -
  from c have d: "doc b = newDoc E cb" and m: "st_maxPeers b = maxPeers cfg"
    by (auto simp: createYStorage_def Let_def split: if_splits)
  from g m have "\<not> gated (st_maxPeers b) ps" by simp
  from roundtrip_initiator [OF this, of E c idb a ida] d
  have "doc (fst (roundtrip E c b idb a ida ps)) =
      m_doc (applyUpdate E (newDoc E cb)
        (encodeStateAsUpdate E (doc a) (encodeStateVector E (newDoc E cb))))"
    by simp
  with E show ?thesis by (simp add: getItem_view sync_engine_def roundtrip_responder)
qed

theorem roundtrip_pulls_responder_map_witness:
  "sync_engine lww \<and>
   createYStorage lww 2 plain =
     Inr (fresh 2 None, [JoinRoom (Str ''app'') None None (Str ''room'')]) \<and>
   \<not> gated (maxPeers plain) (Some (PeerObject [''A''])) \<and>
   getItem lww (fst (setItem lww (fresh 1 None) (Str ''x'') (Str ''1''))) (Str ''x'') = Some ''1'' \<and>
   getItem lww (fst (roundtrip lww AsArrayBuffer (fresh 2 None) ''B''
     (fst (setItem lww (fresh 1 None) (Str ''x'') (Str ''1''))) ''A'' (Some (PeerObject [''A''])))) (Str ''x'') =
     Some ''1'' \<and>
   snd (roundtrip lww AsArrayBuffer (fresh 2 None) ''B''
     (fst (setItem lww (fresh 1 None) (Str ''x'') (Str ''1''))) ''A'' (Some (PeerObject [''A'']))) =
     fst (setItem lww (fresh 1 None) (Str ''x'') (Str ''1''))"
proof -
  have h: "createYStorage lww 2 plain =
     Inr (fresh 2 None, [JoinRoom (Str ''app'') None None (Str ''room'')])"
    by (rule created_fresh)
  have g: "\<not> gated (maxPeers plain) (Some (PeerObject [''A'']))" by (simp add: gated_def plain_def)
  have x: "getItem lww (fst (setItem lww (fresh 1 None) (Str ''x'') (Str ''1''))) (Str ''x'') =
      Some ''1''"
    by (simp add: getItem_setItem [OF lww_map_engine])
  from roundtrip_pulls_responder_map [OF lww_sync_engine h g, of AsArrayBuffer "''B''"
      "fst (setItem lww (fresh 1 None) (Str ''x'') (Str ''1''))" "''A''" "Str ''x''"]
    lww_sync_engine h g x
  show ?thesis by simp
qed

section \<open>Shutdown\<close>

text \<open>
  C8, as the code has it: \<^verbatim>\<open>destroy()\<close> raises nothing, whatever leaving the room or
  destroying the document throws, and so does a second call. Each call leaves the room and
  destroys the document, and does nothing else: after two calls the document has been
  destroyed twice, the snapshot, the listeners and the ceiling are as they were, and no
  change event has been dispatched or delivered.
\<close>

theorem destroy_twice_raises_nothing:
  "step E st (Destroy t1) = Inr (st\<lparr>doc := fst (docDestroy E (doc st))\<rparr>, [LeaveRoom]) \<and>
   trace E st [Destroy t1, Destroy t2] = [(Destroy t1, [LeaveRoom]), (Destroy t2, [LeaveRoom])] \<and>
   final E st [Destroy t1, Destroy t2] =
     st\<lparr>doc := fst (docDestroy E (fst (docDestroy E (doc st))))\<rparr> \<and>
   delivered (bus st) (concat (map snd (trace E st [Destroy t1, Destroy t2]))) = []"
  by (simp add: destroy_eq delivered_def)

theorem destroy_twice_raises_nothing_witness:
  "trace lww (addEventListener (fresh 1 None) ''storage'' 7)
     [Destroy (Some (Error ''room closed'')), Destroy None] =
     [(Destroy (Some (Error ''room closed'')), [LeaveRoom]), (Destroy None, [LeaveRoom])] \<and>
   final lww (addEventListener (fresh 1 None) ''storage'' 7)
     [Destroy (Some (Error ''room closed'')), Destroy None] =
     \<lparr>doc = \<lparr>client = 1, items = [], destroyed = True\<rparr>, snap = [],
      bus = [(''storage'', 7)], st_maxPeers = None\<rparr>"
  using destroy_twice_raises_nothing [of lww "addEventListener (fresh 1 None) ''storage'' 7"
      "Some (Error ''room closed'')" None]
  by (simp add: addEventListener_def fresh_def lww_def destroy_eq)

text \<open>
  C8 as stated fails: \<^verbatim>\<open>destroy()\<close> detaches neither the observer of the map nor the
  listeners. On an engine whose destroyed document keeps its map and the observers of the
  map, a \<^verbatim>\<open>setItem\<close> after two calls of \<^verbatim>\<open>destroy()\<close> still delivers its change event
  to a subscribed listener.
\<close>

theorem destroy_inert_counterexample:
  "delivered
     (bus (final lww (fresh 1 None) [AddEventListener ''storage'' 7, Destroy None, Destroy None]))
     (snd (exec lww
        (final lww (fresh 1 None) [AddEventListener ''storage'' 7, Destroy None, Destroy None])
        (SetItem (Str ''a'') (Str ''1'')))) =
   [(7, \<lparr>key = ''a'', oldValue = Null, newValue = Str ''1''\<rparr>)]"
  by code_simp

end
